theory Spec2Isabelle
  imports Main "HOL-Library.Sublist"
begin

section \<open>Data model of \<^verbatim>\<open>discord/client.py\<close>\<close>

text \<open>
  The class \<^verbatim>\<open>Client\<close> is embedded with explicit state passing. Exceptions are values
  of type \<open>error\<close>; a call ends in a \<open>status\<close>: it returned, it raised, or it is still
  suspended at an \<^verbatim>\<open>await\<close> that the environment never answered.
\<close>

datatype error =
    TypeError | ValueError | AttributeError | KeyError | TimeoutError | RecursionError
  | OtherError string

datatype status = Returned | Raised error | Pending

text \<open>
  A listener is a Python callable. The code reads its \<^verbatim>\<open>__name__\<close>, asks
  \<^verbatim>\<open>inspect.iscoroutinefunction\<close> about it and compares it by identity.
\<close>

record func =
  func_id :: nat
  func_name :: string
  is_coroutine :: bool

text \<open>
  The payload \<^verbatim>\<open>msg["d"]\<close> of an envelope is either raw gateway data or, for the
  reserved event \<^verbatim>\<open>event_error\<close>, an exception object whose attribute
  \<^verbatim>\<open>event\<close> was set to the listener that failed. The converter turns a payload
  into the positional arguments of the listeners.
\<close>

datatype payload = Raw string | Tagged error func

type_synonym args = "payload list"

datatype envelope = Envelope (msg_d: payload) (msg_t: string)

text \<open>
  \<^verbatim>\<open>Command\<close> lives in \<^verbatim>\<open>commands/core.py\<close>; the client reads the four attributes below.
  The match function is the callable stored in the command (\<^verbatim>\<open>re.match\<close> and the like),
  taken here by the truth value of what it returns.
\<close>

record command =
  name :: string
  is_regex_command :: bool
  regex_match_func :: "string \<Rightarrow> string \<Rightarrow> int \<Rightarrow> bool"
  regex_flags :: int

record message =
  author_bot :: bool
  content :: string

datatype intents_value = Intents nat | NotIntents string

fun is_intents :: "intents_value \<Rightarrow> bool" where
  "is_intents (Intents _) = True"
| "is_intents (NotIntents _) = False"

text \<open>
  The trace lists, in order, what a run did to its collaborators: the envelopes
  dispatched, the one-shot lists drained, the tasks handed to the event loop, the calls
  to the REST layer, the gateway socket, the lock, the parser and the commands. It is
  not an attribute of the Python object; it is what the claims speak about.
\<close>

datatype kind = Persistent | OneShot

datatype action =
    Dispatch envelope
  | Drain string "func list"
  | Task kind string func args
  | HttpLogin string
  | HttpGateway
  | HttpClose
  | LockAcquire
  | LockRelease
  | NewSocket string
  | SocketStart string
  | ReceiveEvents string
  | WsClose string
  | Parse string
  | Execute string "string list"

text \<open>
  The attributes of \<^verbatim>\<open>Client\<close>. \<^verbatim>\<open>token\<close>, \<^verbatim>\<open>info\<close> and \<^verbatim>\<open>ws\<close> are not assigned by
  \<^verbatim>\<open>__init__\<close>: \<open>None\<close> stands for an attribute that does not exist yet, and reading
  it raises \<^verbatim>\<open>AttributeError\<close>. The two listener tables are dictionaries read by key
  only; \<^verbatim>\<open>commands\<close> is iterated, so it keeps its insertion order.
\<close>

record client =
  intents :: intents_value
  respond_self :: bool
  closed :: bool
  events :: "string \<rightharpoonup> func list"
  once_events :: "string \<rightharpoonup> func list"
  command_prefix :: string
  commands :: "(string \<times> command) list"
  token :: "string option"
  info :: "string option"
  ws :: "string option"
  loop_set :: bool
  trace :: "action list"

definition emit :: "action list \<Rightarrow> client \<Rightarrow> client" where
  "emit as st = st\<lparr>trace := trace st @ as\<rparr>"

text \<open>\<^verbatim>\<open>d.get(key, [])\<close> on a listener table.\<close>

definition dict_get :: "(string \<rightharpoonup> func list) \<Rightarrow> string \<Rightarrow> func list" where
  "dict_get m k = (case m k of None \<Rightarrow> [] | Some hs \<Rightarrow> hs)"

section \<open>Listener registry\<close>

text \<open>\<^verbatim>\<open>event or func.__name__\<close>: \<^verbatim>\<open>None\<close> and the empty string are both falsy.\<close>

definition event_or_name :: "string option \<Rightarrow> func \<Rightarrow> string" where
  "event_or_name event f =
     (case event of None \<Rightarrow> func_name f
      | Some e \<Rightarrow> if e = [] then func_name f else e)"

text \<open>
  \<^verbatim>\<open>Client.add_listener(func, event, overwrite=..., once=...)\<close>. The type check
  comes before any mutation, so a raising call leaves the client as it was.
\<close>

definition add_listener ::
  "func \<Rightarrow> string option \<Rightarrow> bool \<Rightarrow> bool \<Rightarrow> client \<Rightarrow> status \<times> client" where
  "add_listener f event overwrite once st =
     (let ev = event_or_name event f in
      if \<not> is_coroutine f then (Raised TypeError, st)
      else if once then
        (if once_events st ev \<noteq> None \<and> \<not> overwrite
         then (Returned, st\<lparr>once_events := (once_events st)(ev \<mapsto> the (once_events st ev) @ [f])\<rparr>)
         else (Returned, st\<lparr>once_events := (once_events st)(ev \<mapsto> [f])\<rparr>))
      else
        (if events st ev \<noteq> None \<and> \<not> overwrite
         then (Returned, st\<lparr>events := (events st)(ev \<mapsto> the (events st ev) @ [f])\<rparr>)
         else (Returned, st\<lparr>events := (events st)(ev \<mapsto> [f])\<rparr>)))"

text \<open>
  Successive calls \<^verbatim>\<open>add_listener(f, event, overwrite=False, once=once)\<close>, one for
  each entry \<open>(f, event, once)\<close> of a list, stopping at the first call that raises.
\<close>

fun add_listeners :: "(func \<times> string option \<times> bool) list \<Rightarrow> client \<Rightarrow> status \<times> client" where
  "add_listeners [] st = (Returned, st)"
| "add_listeners ((f, event, once) # calls) st =
     (case add_listener f event False once st of
        (Returned, st') \<Rightarrow> add_listeners calls st'
      | r \<Rightarrow> r)"

text \<open>The table a registration of the given kind writes to.\<close>

definition table :: "bool \<Rightarrow> client \<Rightarrow> (string \<rightharpoonup> func list)" where
  "table once st = (if once then once_events st else events st)"

section \<open>Event dispatch\<close>

text \<open>
  \<^verbatim>\<open>str.lower()\<close> on the ASCII letters; every other byte is left as it is (event
  names on the wire are ASCII).
\<close>

definition lower_char :: "char \<Rightarrow> char" where
  "lower_char c =
     (let n = (of_char c :: nat) in if 65 \<le> n \<and> n \<le> 90 then char_of (n + 32) else c)"

definition lower :: "string \<Rightarrow> string" where
  "lower s = map lower_char s"

text \<open>
  The collaborators the client calls but does not define: the data converter
  (\<^verbatim>\<open>self.converter.convert(event, msg["d"])\<close>, which returns the argument list or
  raises), the expression \<^verbatim>\<open>self._loop.create_task(coro(*args))\<close> (which hands a task to
  the event loop or raises at once, for instance on an argument list the coroutine
  function does not accept), the command parser and the body of a command.
\<close>

record env =
  convert :: "string \<Rightarrow> payload \<Rightarrow> error + args"
  create_task :: "func \<Rightarrow> args \<Rightarrow> error option"
  parse_message ::
    "(string \<times> command) list \<Rightarrow> message
       \<Rightarrow> error + (command option \<times> string list \<times> (string \<times> string) list \<times> (string \<times> string) list)"
  execute ::
    "command \<Rightarrow> message \<Rightarrow> string list \<Rightarrow> (string \<times> string) list \<Rightarrow> (string \<times> string) list
       \<Rightarrow> error option"

text \<open>
  The body shared by the two \<^verbatim>\<open>for coro in ...\<close> loops of \<^verbatim>\<open>handle_event\<close>: try to
  schedule \<^verbatim>\<open>coro(*args)\<close>; on an exception set \<^verbatim>\<open>error.event = coro\<close> and await
  \<^verbatim>\<open>self.handle_event({"d": error, "t": "event_error"})\<close>, which is the parameter
  \<open>rec\<close>. An exception of that inner call is raised inside the \<^verbatim>\<open>except\<close> block, so it
  leaves the loop.
\<close>

fun schedule_all ::
  "env \<Rightarrow> (client \<Rightarrow> envelope \<Rightarrow> (status \<times> client) option) \<Rightarrow> kind \<Rightarrow> string \<Rightarrow> args
     \<Rightarrow> func list \<Rightarrow> client \<Rightarrow> (status \<times> client) option" where
  "schedule_all E rec k ev a [] st = Some (Returned, st)"
| "schedule_all E rec k ev a (coro # rest) st =
     (case create_task E coro a of
        None \<Rightarrow> schedule_all E rec k ev a rest (emit [Task k ev coro a] st)
      | Some err \<Rightarrow>
          (case rec st (Envelope (Tagged err coro) ''event_error'') of
             None \<Rightarrow> None
           | Some (Returned, st') \<Rightarrow> schedule_all E rec k ev a rest st'
           | Some (r, st') \<Rightarrow> Some (r, st')))"

text \<open>
  \<^verbatim>\<open>Client.handle_event(msg)\<close>. The recursion through \<^verbatim>\<open>event_error\<close> need not end by
  itself (a listener of \<^verbatim>\<open>event_error\<close> that cannot be scheduled is reported by another
  \<^verbatim>\<open>event_error\<close>); the interpreter ends it: \<open>n\<close> is the number of nested calls of
  \<^verbatim>\<open>handle_event\<close> the recursion limit still allows, and a call beyond it raises
  \<^verbatim>\<open>RecursionError\<close>. That exception reaches each caller inside its \<^verbatim>\<open>except\<close> block, so
  it leaves every enclosing call. Every call ends, and the result is never \<open>None\<close>. The
  one-shot list is popped only after the first loop has ended without an exception.
\<close>

primrec handle_event :: "env \<Rightarrow> nat \<Rightarrow> client \<Rightarrow> envelope \<Rightarrow> (status \<times> client) option" where
  "handle_event E 0 st msg = Some (Raised RecursionError, st)"
| "handle_event E (Suc n) st msg =
     (let event = lower (msg_t msg);
          st0 = emit [Dispatch msg] st
      in case convert E event (msg_d msg) of
           Inl err \<Rightarrow> Some (Raised err, st0)
         | Inr a \<Rightarrow>
             (case schedule_all E (handle_event E n) Persistent event a
                     (dict_get (events st0) event) st0 of
                None \<Rightarrow> None
              | Some (Returned, st1) \<Rightarrow>
                  schedule_all E (handle_event E n) OneShot event a
                    (dict_get (once_events st1) event)
                    (emit [Drain event (dict_get (once_events st1) event)]
                       (st1\<lparr>once_events := (once_events st1)(event := None)\<rparr>))
              | Some (r, st1) \<Rightarrow> Some (r, st1)))"

text \<open>The envelopes dispatched and the tasks scheduled for one event name, read off a trace.\<close>

fun dispatched :: "action list \<Rightarrow> envelope list" where
  "dispatched [] = []"
| "dispatched (Dispatch m # as) = m # dispatched as"
| "dispatched (_ # as) = dispatched as"

fun scheduled :: "string \<Rightarrow> action list \<Rightarrow> (func \<times> args) list" where
  "scheduled x [] = []"
| "scheduled x (Task k ev f a # as) =
     (if ev = x then (f, a) # scheduled x as else scheduled x as)"
| "scheduled x (_ # as) = scheduled x as"


section \<open>Command registry and command processing\<close>

text \<open>
  \<^verbatim>\<open>Client.add_command\<close>: the membership test comes first, so a duplicate name raises
  before the dictionary is touched. A new key goes to the end of the insertion order.
\<close>

definition add_command :: "command \<Rightarrow> client \<Rightarrow> status \<times> client" where
  "add_command c st =
     (if name c \<in> set (map fst (commands st)) then (Raised ValueError, st)
      else (Returned, st\<lparr>commands := commands st @ [(name c, c)]\<rparr>))"

text \<open>\<^verbatim>\<open>Client.remove_command\<close>: \<^verbatim>\<open>dict.pop\<close> without a default raises \<^verbatim>\<open>KeyError\<close>.\<close>

definition remove_command :: "command \<Rightarrow> client \<Rightarrow> status \<times> client" where
  "remove_command c st =
     (if name c \<in> set (map fst (commands st))
      then (Returned, st\<lparr>commands := filter (\<lambda>(k, _). k \<noteq> name c) (commands st)\<rparr>)
      else (Raised KeyError, st))"

text \<open>
  The loop of \<^verbatim>\<open>Client.get_command_named\<close> over \<^verbatim>\<open>self.commands.items()\<close>, in
  insertion order. Falling off the end of the loop returns \<^verbatim>\<open>None\<close>.
\<close>

fun find_command :: "(string \<times> command) list \<Rightarrow> string \<Rightarrow> command option" where
  "find_command [] nm = None"
| "find_command ((command_name, c) # rest) nm =
     (if is_regex_command c then
        (if regex_match_func c command_name nm (regex_flags c) then Some c
         else find_command rest nm)
      else if command_name = nm then Some c
      else find_command rest nm)"

definition get_command_named :: "client \<Rightarrow> string \<Rightarrow> command option" where
  "get_command_named st nm = find_command (commands st) nm"

text \<open>
  \<^verbatim>\<open>Client.process_commands(message)\<close>. The parser is given the dictionary of
  commands at construction; the context object only bundles client, message and
  command. What the body of a command does to the client is not modelled.
\<close>

definition process_commands :: "env \<Rightarrow> message \<Rightarrow> client \<Rightarrow> status \<times> client" where
  "process_commands E m st =
     (if author_bot m then (Returned, st)
      else
        (case parse_message E (commands st) m of
           Inl err \<Rightarrow> (Raised err, emit [Parse (content m)] st)
         | Inr (cmd, pos, kwargs, extra_kwargs) \<Rightarrow>
             (case cmd of
                None \<Rightarrow> (Returned, emit [Parse (content m)] st)
              | Some c \<Rightarrow>
                  (case execute E c m pos kwargs extra_kwargs of
                     None \<Rightarrow> (Returned, emit [Parse (content m), Execute (name c) pos] st)
                   | Some err \<Rightarrow> (Raised err, emit [Parse (content m), Execute (name c) pos] st)))))"

text \<open>\<^verbatim>\<open>Client.handle_commands\<close>, the default listener of \<^verbatim>\<open>message_create\<close>.\<close>

definition handle_commands :: "env \<Rightarrow> message \<Rightarrow> client \<Rightarrow> status \<times> client" where
  "handle_commands E m st = process_commands E m st"

section \<open>Construction\<close>

definition handle_commands_func :: func where
  "handle_commands_func = \<lparr>func_id = 0, func_name = ''handle_commands'', is_coroutine = True\<rparr>"

definition handle_event_error_func :: func where
  "handle_event_error_func =
     \<lparr>func_id = 1, func_name = ''handle_event_error'', is_coroutine = True\<rparr>"

text \<open>
  \<^verbatim>\<open>Client.__init__(command_prefix, intents=..., help_command=..., respond_self=...)\<close>.
  \<^verbatim>\<open>case_sensitive\<close> is only passed on to the parser. A falsy \<^verbatim>\<open>help_command\<close> is
  \<open>None\<close>.
\<close>

definition init :: "string \<Rightarrow> intents_value \<Rightarrow> command option \<Rightarrow> bool \<Rightarrow> status \<times> client" where
  "init pfx iv help_command rself =
     (let st = \<lparr>intents = iv, respond_self = rself, closed = False,
                events = [''message_create'' \<mapsto> [handle_commands_func],
                          ''event_error'' \<mapsto> [handle_event_error_func]],
                once_events = Map.empty,
                command_prefix = pfx, commands = [],
                token = None, info = None, ws = None, loop_set = False, trace = []\<rparr>
      in case help_command of None \<Rightarrow> (Returned, st) | Some c \<Rightarrow> add_command c st)"

section \<open>Connection lifecycle\<close>

text \<open>
  Every \<^verbatim>\<open>await\<close> on a collaborator (REST layer, gateway socket) is answered by the
  environment. A run is given the list of answers in the order of the calls: the call
  returns a value or raises, and the flag says whether another task called
  \<^verbatim>\<open>close()\<close> (setting \<^verbatim>\<open>self.closed\<close>) while this one was suspended. When the list is
  used up the call never completes and the run stays \<open>Pending\<close>. The timeout of
  \<^verbatim>\<open>asyncio.wait_for(..., timeout=30)\<close> is the answer \<open>Exc TimeoutError\<close>. The lock is
  only taken by \<^verbatim>\<open>login\<close> and \<^verbatim>\<open>connect\<close>, which \<^verbatim>\<open>alive_loop\<close> runs one after the
  other, so acquiring it does not block; it is released on every way out of the
  \<^verbatim>\<open>async with\<close> block.
\<close>

datatype outcome = Ret string | Exc error

type_synonym reply = "outcome \<times> bool"

text \<open>\<^verbatim>\<open>Client.login(token)\<close>.\<close>

definition login :: "string \<Rightarrow> client \<Rightarrow> reply list \<Rightarrow> status \<times> client \<times> reply list" where
  "login tk st rs =
     (let st1 = emit [LockAcquire, HttpLogin tk] (st\<lparr>token := Some tk\<rparr>) in
      case rs of
        [] \<Rightarrow> (Pending, st1, [])
      | (out, c) # rs1 \<Rightarrow>
          let st2 = st1\<lparr>closed := closed st1 \<or> c\<rparr> in
          (case out of
             Exc err \<Rightarrow> (Raised err, emit [LockRelease] st2, rs1)
           | Ret i \<Rightarrow> (Returned, emit [LockRelease] (st2\<lparr>info := Some i\<rparr>), rs1)))"

text \<open>The inner loop of \<^verbatim>\<open>connect\<close>: \<^verbatim>\<open>while not self.closed: await self.ws.receive_events()\<close>.\<close>

fun receive_loop :: "client \<Rightarrow> reply list \<Rightarrow> status \<times> client \<times> reply list" where
  "receive_loop st [] =
     (if closed st then (Returned, st, [])
      else case ws st of
             None \<Rightarrow> (Raised AttributeError, st, [])
           | Some s \<Rightarrow> (Pending, emit [ReceiveEvents s] st, []))"
| "receive_loop st ((out, c) # rest) =
     (if closed st then (Returned, st, (out, c) # rest)
      else case ws st of
             None \<Rightarrow> (Raised AttributeError, st, (out, c) # rest)
           | Some s \<Rightarrow>
               let st1 = (emit [ReceiveEvents s] st)\<lparr>closed := closed st \<or> c\<rparr> in
               (case out of
                  Exc err \<Rightarrow> (Raised err, st1, rest)
                | Ret _ \<Rightarrow> receive_loop st1 rest))"

text \<open>
  \<^verbatim>\<open>Client.connect()\<close>. Nothing in it catches an exception: one raised by
  \<^verbatim>\<open>gateway()\<close>, by the type check or by \<^verbatim>\<open>wait_for(socket.start(g_url))\<close> leaves the
  \<^verbatim>\<open>async with\<close> block (releasing the lock), both loops and the method.
\<close>

function connect :: "client \<Rightarrow> reply list \<Rightarrow> status \<times> client \<times> reply list" where
  "connect st rs =
     (if closed st then (Returned, st, rs)
      else
        case token st of
          None \<Rightarrow> (Raised AttributeError, st, rs)
        | Some tk \<Rightarrow>
            let st1 = emit [NewSocket tk, LockAcquire, HttpGateway] st in
            (case rs of
               [] \<Rightarrow> (Pending, st1, [])
             | (out1, c1) # rs1 \<Rightarrow>
                 let st2 = st1\<lparr>closed := closed st1 \<or> c1\<rparr> in
                 (case out1 of
                    Exc err \<Rightarrow> (Raised err, emit [LockRelease] st2, rs1)
                  | Ret g_url \<Rightarrow>
                      if \<not> is_intents (intents st2)
                      then (Raised TypeError, emit [LockRelease] st2, rs1)
                      else
                        let st3 = emit [SocketStart g_url] st2 in
                        (case rs1 of
                           [] \<Rightarrow> (Pending, st3, [])
                         | (out2, c2) # rs2 \<Rightarrow>
                             let st4 = st3\<lparr>closed := closed st3 \<or> c2\<rparr> in
                             (case out2 of
                                Exc err \<Rightarrow> (Raised err, emit [LockRelease] st4, rs2)
                              | Ret s \<Rightarrow>
                                  (case receive_loop (emit [LockRelease] (st4\<lparr>ws := Some s\<rparr>)) rs2 of
                                     (Returned, st5, rs3) \<Rightarrow> connect st5 rs3
                                   | other \<Rightarrow> other))))))"
  by pat_completeness auto
termination
proof (relation "measure (\<lambda>(st, rs). length rs)")
  show "wf (measure (\<lambda>(st, rs). length rs))" by simp
next
  have shorter: "length rs' \<le> length rs" if "receive_loop st rs = (r, st', rs')"
    for st rs r st' rs'
    using that
  proof (induction rs arbitrary: st)
    case Nil
    then show ?case by (auto split: if_splits option.splits)
  next
    case (Cons p rs)
    obtain out c where p: "p = (out, c)" by (cases p)
    show ?case
    proof (cases "closed st \<or> ws st = None")
      case True
      with Cons.prems p show ?thesis by (auto split: if_splits)
    next
      case False
      then obtain s where s: "ws st = Some s" by auto
      show ?thesis
      proof (cases out)
        case (Ret v)
        with False s p Cons.prems
        have "receive_loop ((emit [ReceiveEvents s] st)\<lparr>closed := closed st \<or> c\<rparr>) rs = (r, st', rs')"
          by (simp add: Let_def)
        from Cons.IH [OF this] show ?thesis by simp
      next
        case (Exc err)
        with False s p Cons.prems show ?thesis by (auto simp: Let_def)
      qed
    qed
  qed
  fix st :: client and rs :: "reply list" and tk st1 p rs1 out1 c1 st2 g_url st3 q rs2 out2 c2 st4 s
    and x y st5 rs3
  assume "rs = p # rs1" and "rs1 = q # rs2"
    and "(x, y) = receive_loop (emit [LockRelease] (st4\<lparr>ws := Some s\<rparr>)) rs2"
    and "(st5, rs3) = y"
  then have "receive_loop (emit [LockRelease] (st4\<lparr>ws := Some s\<rparr>)) rs2 = (x, st5, rs3)"
    by simp
  from shorter [OF this] \<open>rs = p # rs1\<close> \<open>rs1 = q # rs2\<close>
  show "((st5, rs3), st, rs) \<in> measure (\<lambda>(st, rs). length rs)"
    by simp
qed

declare connect.simps [simp del]

text \<open>\<^verbatim>\<open>Client.close()\<close>: the flag is set before \<^verbatim>\<open>self.ws\<close> is read.\<close>

definition close :: "client \<Rightarrow> reply list \<Rightarrow> status \<times> client \<times> reply list" where
  "close st rs =
     (let st1 = st\<lparr>closed := True\<rparr> in
      case ws st1 of
        None \<Rightarrow> (Raised AttributeError, st1, rs)
      | Some s \<Rightarrow>
          (case rs of
             [] \<Rightarrow> (Pending, emit [WsClose s] st1, [])
           | (out1, c1) # rs1 \<Rightarrow>
               (case out1 of
                  Exc err \<Rightarrow> (Raised err, emit [WsClose s] st1, rs1)
                | Ret _ \<Rightarrow>
                    (case rs1 of
                       [] \<Rightarrow> (Pending, emit [WsClose s, HttpClose] st1, [])
                     | (out2, c2) # rs2 \<Rightarrow>
                         (case out2 of
                            Exc err \<Rightarrow> (Raised err, emit [WsClose s, HttpClose] st1, rs2)
                          | Ret _ \<Rightarrow> (Returned, emit [WsClose s, HttpClose] st1, rs2))))))"

text \<open>
  \<^verbatim>\<open>Client.alive_loop(token)\<close>: \<^verbatim>\<open>login\<close> is awaited before the \<^verbatim>\<open>try\<close>; the
  \<^verbatim>\<open>finally\<close> clause awaits \<^verbatim>\<open>close()\<close> once \<^verbatim>\<open>connect()\<close> has returned or raised,
  and an exception of \<^verbatim>\<open>close()\<close> replaces the one in flight.
\<close>

definition alive_loop :: "string \<Rightarrow> client \<Rightarrow> reply list \<Rightarrow> status \<times> client \<times> reply list" where
  "alive_loop tk st rs =
     (case login tk (st\<lparr>loop_set := True\<rparr>) rs of
        (Returned, st1, rs1) \<Rightarrow>
          (case connect st1 rs1 of
             (Pending, st2, rs2) \<Rightarrow> (Pending, st2, rs2)
           | (r, st2, rs2) \<Rightarrow>
               (case close st2 rs2 of
                  (Returned, st3, rs3) \<Rightarrow> (r, st3, rs3)
                | other \<Rightarrow> other))
      | other \<Rightarrow> other)"

section \<open>Sample collaborators and clients\<close>

text \<open>
  A converter that passes the payload on as the only argument, an event loop that
  accepts every task, a parser that finds no command.
\<close>

definition env0 :: env where
  "env0 = \<lparr>convert = (\<lambda>ev p. Inr [p]),
            create_task = (\<lambda>f a. None),
            parse_message = (\<lambda>cs m. Inr (None, [], [], [])),
            execute = (\<lambda>c m pos kwargs extra_kwargs. None)\<rparr>"

definition on_ready :: func where
  "on_ready = \<lparr>func_id = 2, func_name = ''on_ready'', is_coroutine = True\<rparr>"

definition greet :: func where
  "greet = \<lparr>func_id = 3, func_name = ''greet'', is_coroutine = True\<rparr>"

definition audit_log :: func where
  "audit_log = \<lparr>func_id = 4, func_name = ''audit_log'', is_coroutine = True\<rparr>"

text \<open>The client \<^verbatim>\<open>Client("!", help_command=None)\<close>.\<close>

definition client0 :: client where
  "client0 = snd (init ''!'' (Intents 0) None False)"

text \<open>
  A converter that fails on the payload of \<^verbatim>\<open>event_error\<close>, and an event loop that
  cannot schedule \<open>greet\<close>.
\<close>

definition env1 :: env where
  "env1 = \<lparr>convert = (\<lambda>ev p. if ev = ''event_error''
                            then Inl (OtherError ''ConversionError'') else Inr [p]),
            create_task = (\<lambda>f a. if func_id f = 3 then Some TypeError else None),
            parse_message = (\<lambda>cs m. Inr (None, [], [], [])),
            execute = (\<lambda>c m pos kwargs extra_kwargs. None)\<rparr>"


definition ready_msg :: envelope where
  "ready_msg = Envelope (Raw ''{}'') ''READY''"




text \<open>
  An event loop that cannot schedule \<open>greet\<close>, with a converter that accepts every
  payload.
\<close>

definition env2 :: env where
  "env2 = \<lparr>convert = (\<lambda>ev p. Inr [p]),
            create_task = (\<lambda>f a. if func_id f = 3 then Some TypeError else None),
            parse_message = (\<lambda>cs m. Inr (None, [], [], [])),
            execute = (\<lambda>c m pos kwargs extra_kwargs. None)\<rparr>"

text \<open>Two persistent listeners of \<^verbatim>\<open>ready\<close>; a listener registered as \<^verbatim>\<open>READY\<close>.\<close>

definition client_two :: client where
  "client_two =
     snd (add_listeners [(greet, Some ''ready'', False), (audit_log, Some ''ready'', False)] client0)"

definition client_upper :: client where
  "client_upper = snd (add_listener on_ready (Some ''READY'') False False client0)"

text \<open>
  A pattern-style command that matches every name starting with \<^verbatim>\<open>echo-\<close>, two plain
  commands of the same name, and a parser that takes the text after the first character
  as the command name.
\<close>

definition echo_pattern :: command where
  "echo_pattern = \<lparr>name = ''echo-'', is_regex_command = True,
                    regex_match_func = (\<lambda>pattern s flags. take (length pattern) s = pattern),
                    regex_flags = 0\<rparr>"

definition echo_foo :: command where
  "echo_foo = \<lparr>name = ''echo-foo'', is_regex_command = False,
                regex_match_func = (\<lambda>pattern s flags. False), regex_flags = 0\<rparr>"

definition echo_foo_again :: command where
  "echo_foo_again = \<lparr>name = ''echo-foo'', is_regex_command = False,
                      regex_match_func = (\<lambda>pattern s flags. False), regex_flags = 1\<rparr>"

definition client_cmds :: client where
  "client_cmds = snd (add_command echo_foo (snd (add_command echo_pattern client0)))"

definition env3 :: env where
  "env3 = \<lparr>convert = (\<lambda>ev p. Inr [p]),
            create_task = (\<lambda>f a. None),
            parse_message = (\<lambda>cs m. Inr (find_command cs (drop 1 (content m)), [], [], [])),
            execute = (\<lambda>c m pos kwargs extra_kwargs. None)\<rparr>"

definition bot_msg :: message where
  "bot_msg = \<lparr>author_bot = True, content = ''!echo-foo''\<rparr>"

definition human_msg :: message where
  "human_msg = \<lparr>author_bot = False, content = ''!echo-foo''\<rparr>"

text \<open>
  The client after a successful \<^verbatim>\<open>login("tok")\<close>, with a proper \<^verbatim>\<open>Intents\<close> value and
  with an \<^verbatim>\<open>int\<close> in its place.
\<close>

definition client_logged_in :: client where
  "client_logged_in = fst (snd (login ''tok'' client0 [(Ret ''me'', False)]))"

definition client_bad_intents :: client where
  "client_bad_intents =
     fst (snd (login ''tok'' (snd (init ''!'' (NotIntents ''int'') None False)) [(Ret ''me'', False)]))"

text \<open>
  An event loop that can schedule neither \<open>on_ready\<close> nor \<open>greet\<close>, and a client with two
  persistent and two one-shot listeners of \<^verbatim>\<open>ready\<close>.
\<close>

definition env4 :: env where
  "env4 = \<lparr>convert = (\<lambda>ev p. Inr [p]),
            create_task = (\<lambda>f a. if func_id f = 2 \<or> func_id f = 3 then Some TypeError else None),
            parse_message = (\<lambda>cs m. Inr (None, [], [], [])),
            execute = (\<lambda>c m pos kwargs extra_kwargs. None)\<rparr>"

definition client_mixed :: client where
  "client_mixed =
     snd (add_listeners [(on_ready, Some ''ready'', False), (audit_log, Some ''ready'', False),
                         (greet, Some ''ready'', True), (audit_log, Some ''ready'', True)] client0)"

section \<open>Notions used to state the properties\<close>

text \<open>
  The trace of a dispatch of \<open>msg\<close> under the name \<open>x\<close> in which every listener is
  scheduled: the envelope, the persistent listeners, the one-shot list taken out of the
  table, the one-shot listeners.
\<close>

definition fanout :: "envelope \<Rightarrow> string \<Rightarrow> args \<Rightarrow> client \<Rightarrow> action list" where
  "fanout msg x a st =
     [Dispatch msg] @ map (\<lambda>f. Task Persistent x f a) (dict_get (events st) x)
       @ [Drain x (dict_get (once_events st) x)]
       @ map (\<lambda>f. Task OneShot x f a) (dict_get (once_events st) x)"

text \<open>
  The functions that the calls of a list register under the name \<open>n\<close> with the given
  kind, in call order.
\<close>

definition registered :: "(func \<times> string option \<times> bool) list \<Rightarrow> string \<Rightarrow> bool \<Rightarrow> func list" where
  "registered calls n once =
     map fst (filter (\<lambda>(f, event, kd). event_or_name event f = n \<and> kd = once) calls)"

text \<open>
  The \<^verbatim>\<open>event_error\<close> envelopes a loop over the listeners \<open>hs\<close> dispatches: one for each
  listener that cannot be scheduled with the arguments \<open>a\<close>, in order, carrying the
  exception tagged with that listener.
\<close>

fun failure_reports :: "env \<Rightarrow> args \<Rightarrow> func list \<Rightarrow> envelope list" where
  "failure_reports E a [] = []"
| "failure_reports E a (h # hs) =
     (case create_task E h a of
        None \<Rightarrow> failure_reports E a hs
      | Some e \<Rightarrow> Envelope (Tagged e h) ''event_error'' # failure_reports E a hs)"

text \<open>
  The listeners scheduled from a one-shot list under the name \<open>x\<close>, read off a trace.
\<close>

fun one_shots :: "string \<Rightarrow> action list \<Rightarrow> func list" where
  "one_shots x [] = []"
| "one_shots x (Task k ev f a # as) =
     (if k = OneShot \<and> ev = x then f # one_shots x as else one_shots x as)"
| "one_shots x (_ # as) = one_shots x as"


text \<open>
  The test one round of the loop in \<^verbatim>\<open>get_command_named\<close> applies to an entry: the
  match function on the key for a pattern-style command, equality of the key otherwise.
\<close>

definition accepts :: "string \<times> command \<Rightarrow> string \<Rightarrow> bool" where
  "accepts kc nm =
     (if is_regex_command (snd kc) then regex_match_func (snd kc) (fst kc) nm (regex_flags (snd kc))
      else fst kc = nm)"

section \<open>Properties of the listener registry\<close>

lemma add_listener_step:
  assumes "is_coroutine f"
  shows "fst (add_listener f event False kd st) = Returned
       \<and> dict_get (table once (snd (add_listener f event False kd st))) n
           = dict_get (table once st) n
               @ (if event_or_name event f = n \<and> kd = once then [f] else [])
       \<and> (snd (add_listener f event False kd st))\<lparr>events := events st, once_events := once_events st\<rparr> = st"
  using assms
  by (auto simp: add_listener_def table_def dict_get_def Let_def split: option.splits)

lemma add_listener_overwrite_step:
  assumes "is_coroutine h"
  shows "fst (add_listener h event True kd st) = Returned
       \<and> dict_get (table once (snd (add_listener h event True kd st))) n
           = (if event_or_name event h = n \<and> kd = once then [h] else dict_get (table once st) n)
       \<and> (snd (add_listener h event True kd st))\<lparr>events := events st, once_events := once_events st\<rparr> = st"
  using assms
  by (auto simp: add_listener_def table_def dict_get_def Let_def split: option.splits)

lemma add_listeners_all:
  assumes "\<forall>c \<in> set calls. is_coroutine (fst c)"
  shows "fst (add_listeners calls st) = Returned
       \<and> dict_get (table once (snd (add_listeners calls st))) n
           = dict_get (table once st) n @ registered calls n once
       \<and> (snd (add_listeners calls st))\<lparr>events := events st, once_events := once_events st\<rparr> = st"
  using assms
proof (induction calls arbitrary: st)
  case Nil
  show ?case by (simp add: registered_def)
next
  case (Cons c calls)
  obtain f event kd where c: "c = (f, event, kd)" by (cases c)
  obtain r st1 where step: "add_listener f event False kd st = (r, st1)"
    by (cases "add_listener f event False kd st")
  from Cons.prems c have f: "is_coroutine f"
    and rest: "\<forall>c \<in> set calls. is_coroutine (fst c)"
    by simp_all
  from add_listener_step [OF f, where event = event and kd = kd and st = st and once = once and n = n] step
  have r: "r = Returned"
    and t1: "dict_get (table once st1) n
               = dict_get (table once st) n
                   @ (if event_or_name event f = n \<and> kd = once then [f] else [])"
    and fr1: "st1\<lparr>events := events st, once_events := once_events st\<rparr> = st"
    by simp_all
  from Cons.IH [OF rest, where st = st1]
  have ih1: "fst (add_listeners calls st1) = Returned"
    and ih2: "dict_get (table once (snd (add_listeners calls st1))) n
               = dict_get (table once st1) n @ registered calls n once"
    and ih3: "(snd (add_listeners calls st1))\<lparr>events := events st1, once_events := once_events st1\<rparr> = st1"
    by simp_all
  have frame: "(snd (add_listeners calls st1))\<lparr>events := events st, once_events := once_events st\<rparr> = st"
  proof -
    have "(snd (add_listeners calls st1))\<lparr>events := events st, once_events := once_events st\<rparr>
            = ((snd (add_listeners calls st1))\<lparr>events := events st1, once_events := once_events st1\<rparr>)
                \<lparr>events := events st, once_events := once_events st\<rparr>"
      by simp
    also have "\<dots> = st" using ih3 fr1 by simp
    finally show ?thesis .
  qed
  from c step r ih1 ih2 t1 frame show ?case
    by (simp add: registered_def)
qed

text \<open>
  C7. Let coroutine functions be registered without overwrite, one call after the other,
  under any names (given, or the function's own name when the name is omitted or empty)
  and of any kind. Then for every event name \<open>n\<close> and every kind, a lookup returns what it
  returned before followed by the functions registered under \<open>n\<close> with that kind, in call
  order; every other attribute of the client is as before. A registration of \<open>h\<close> with
  overwrite replaces the list of its own name and kind by \<open>[h]\<close> and changes no other
  list and no other attribute; registrations without overwrite that follow append to
  \<open>[h]\<close>, so nothing registered under that name and kind before the overwrite is left.
\<close>

theorem add_listener_order_and_overwrite:
  assumes "\<forall>c \<in> set calls. is_coroutine (fst c)" and "is_coroutine h"
  shows "fst (add_listeners calls st) = Returned
       \<and> dict_get (table once (snd (add_listeners calls st))) n
           = dict_get (table once st) n @ registered calls n once
       \<and> (snd (add_listeners calls st))\<lparr>events := events st, once_events := once_events st\<rparr> = st
       \<and> fst (add_listener h ev True kd st) = Returned
       \<and> dict_get (table once (snd (add_listener h ev True kd st))) n
           = (if event_or_name ev h = n \<and> kd = once then [h] else dict_get (table once st) n)
       \<and> (snd (add_listener h ev True kd st))\<lparr>events := events st, once_events := once_events st\<rparr> = st
       \<and> fst (add_listeners calls (snd (add_listener h ev True kd st))) = Returned
       \<and> dict_get (table once (snd (add_listeners calls (snd (add_listener h ev True kd st))))) n
           = (if event_or_name ev h = n \<and> kd = once then [h] else dict_get (table once st) n)
               @ registered calls n once"
  using add_listeners_all [OF assms(1), where st = st and once = once and n = n]
    add_listener_overwrite_step [OF assms(2), where event = ev and kd = kd and st = st
      and once = once and n = n]
    add_listeners_all [OF assms(1), where st = "snd (add_listener h ev True kd st)"
      and once = once and n = n]
  by simp

theorem add_listener_order_and_overwrite_witness:
  "fst (add_listeners [(greet, Some ''on_ready'', False), (audit_log, None, False),
                       (greet, Some ''ready'', False), (audit_log, Some ''on_ready'', True)] client0)
     = Returned
   \<and> dict_get (table False
         (snd (add_listeners [(greet, Some ''on_ready'', False), (audit_log, None, False),
                              (greet, Some ''ready'', False), (audit_log, Some ''on_ready'', True)]
                 client0))) ''on_ready''
       = dict_get (table False client0) ''on_ready'' @ [greet]
   \<and> (snd (add_listeners [(greet, Some ''on_ready'', False), (audit_log, None, False),
                           (greet, Some ''ready'', False), (audit_log, Some ''on_ready'', True)]
              client0))\<lparr>events := events client0, once_events := once_events client0\<rparr> = client0
   \<and> fst (add_listener on_ready None True False client0) = Returned
   \<and> dict_get (table False (snd (add_listener on_ready None True False client0))) ''on_ready''
       = [on_ready]
   \<and> (snd (add_listener on_ready None True False client0))
        \<lparr>events := events client0, once_events := once_events client0\<rparr> = client0
   \<and> fst (add_listeners [(greet, Some ''on_ready'', False), (audit_log, None, False),
                         (greet, Some ''ready'', False), (audit_log, Some ''on_ready'', True)]
           (snd (add_listener on_ready None True False client0))) = Returned
   \<and> dict_get (table False
         (snd (add_listeners [(greet, Some ''on_ready'', False), (audit_log, None, False),
                              (greet, Some ''ready'', False), (audit_log, Some ''on_ready'', True)]
                 (snd (add_listener on_ready None True False client0))))) ''on_ready''
       = [on_ready] @ [greet]"
  using add_listener_order_and_overwrite
    [where calls = "[(greet, Some ''on_ready'', False), (audit_log, None, False),
                     (greet, Some ''ready'', False), (audit_log, Some ''on_ready'', True)]"
       and h = on_ready and ev = None and kd = False and st = client0 and once = False
       and n = "''on_ready''"]
  by (simp add: registered_def event_or_name_def on_ready_def greet_def audit_log_def)

section \<open>Properties of event dispatch\<close>

lemma emit_fields [simp]:
  "events (emit as st) = events st"
  "once_events (emit as st) = once_events st"
  "trace (emit as st) = trace st @ as"
  "closed (emit as st) = closed st"
  "ws (emit as st) = ws st"
  "token (emit as st) = token st"
  "intents (emit as st) = intents st"
  "commands (emit as st) = commands st"
  by (simp_all add: emit_def)

lemma emit_emit: "emit bs (emit as st) = emit (as @ bs) st"
  by (simp add: emit_def)

lemma emit_Nil [simp]: "emit [] st = st"
  by (simp add: emit_def)

lemma emit_once_events: "emit as (st\<lparr>once_events := m\<rparr>) = (emit as st)\<lparr>once_events := m\<rparr>"
  by (simp add: emit_def)

lemma schedule_all_ok:
  "\<forall>f \<in> set hs. create_task E f a = None \<Longrightarrow>
   schedule_all E rec k ev a hs st = Some (Returned, emit (map (\<lambda>f. Task k ev f a) hs) st)"
  by (induction hs arbitrary: st) (simp_all add: emit_emit)

lemma schedule_all_append:
  "schedule_all E rec k ev a (xs @ ys) st =
     (case schedule_all E rec k ev a xs st of
        None \<Rightarrow> None
      | Some (Returned, st') \<Rightarrow> schedule_all E rec k ev a ys st'
      | Some (r, st') \<Rightarrow> Some (r, st'))"
proof (induction xs arbitrary: st)
  case Nil
  show ?case by simp
next
  case (Cons x xs)
  show ?case
    by (simp add: Cons.IH split: option.splits status.splits prod.splits)
qed

lemma dispatch_ok:
  assumes "lower (msg_t msg) = x"
    and "convert E x (msg_d msg) = Inr a"
    and "\<forall>f \<in> set (dict_get (events st) x @ dict_get (once_events st) x). create_task E f a = None"
  shows "handle_event E (Suc n) st msg =
     Some (Returned, emit (fanout msg x a st) (st\<lparr>once_events := (once_events st)(x := None)\<rparr>))"
  using assms
  by (simp add: Let_def schedule_all_ok emit_emit emit_once_events fanout_def)

lemma lower_char_idem: "lower_char (lower_char c) = lower_char c"
  by (auto simp: lower_char_def Let_def)

lemma lower_idem: "lower (lower s) = lower s"
  by (simp add: lower_def lower_char_idem)

lemma lower_event_error: "lower ''event_error'' = ''event_error''"
  by (simp add: lower_def lower_char_def)

lemma lower_READY: "lower ''READY'' = ''ready''"
  by code_simp






lemma one_shots_append [simp]: "one_shots x (xs @ ys) = one_shots x xs @ one_shots x ys"
  by (induction x xs rule: one_shots.induct) simp_all














lemma dispatched_append [simp]: "dispatched (xs @ ys) = dispatched xs @ dispatched ys"
  by (induction xs rule: dispatched.induct) simp_all

lemma dispatched_tasks [simp]: "dispatched (map (\<lambda>f. Task k ev f a) hs) = []"
  by (induction hs) simp_all

lemma scheduled_append [simp]: "scheduled x (xs @ ys) = scheduled x xs @ scheduled x ys"
  by (induction x xs rule: scheduled.induct) simp_all

lemma scheduled_tasks [simp]:
  "scheduled x (map (\<lambda>f. Task k ev f a) hs) = (if ev = x then map (\<lambda>f. (f, a)) hs else [])"
  by (induction hs) auto

lemma client_two_tables:
  "events client_two = [''message_create'' \<mapsto> [handle_commands_func],
                        ''event_error'' \<mapsto> [handle_event_error_func],
                        ''ready'' \<mapsto> [greet, audit_log]]"
  "once_events client_two = Map.empty"
  "trace client_two = []"
  by (simp_all add: client_two_def client0_def init_def add_listener_def event_or_name_def
      greet_def audit_log_def Let_def)

lemma client_upper_tables:
  "events client_upper = [''message_create'' \<mapsto> [handle_commands_func],
                          ''event_error'' \<mapsto> [handle_event_error_func],
                          ''READY'' \<mapsto> [on_ready]]"
  "once_events client_upper = Map.empty"
  "trace client_upper = []"
  by (simp_all add: client_upper_def client0_def init_def add_listener_def event_or_name_def
      on_ready_def Let_def)

lemma failure_reports_append [simp]:
  "failure_reports E a (xs @ ys) = failure_reports E a xs @ failure_reports E a ys"
  by (induction xs) (simp_all split: option.splits)

lemma dispatched_fanout [simp]: "dispatched (fanout m x a s) = [m]"
  by (simp add: fanout_def)

lemma scheduled_fanout [simp]: "y \<noteq> x \<Longrightarrow> scheduled x (fanout m y a s) = []"
  by (simp add: fanout_def)

lemma schedule_all_isolated:
  assumes ne: "x \<noteq> ''event_error''"
    and benign: "\<forall>h \<in> set hs. \<forall>e. create_task E h a = Some e \<longrightarrow>
       (\<exists>ea. convert E ''event_error'' (Tagged e h) = Inr ea
          \<and> (\<forall>f \<in> set (dict_get (events s) ''event_error''
                         @ dict_get (once_events s) ''event_error''). create_task E f ea = None))"
  shows "\<exists>s' new. schedule_all E (handle_event E (Suc n)) k x a hs s = Some (Returned, s')
       \<and> trace s' = trace s @ new
       \<and> events s' = events s
       \<and> (\<forall>j. j \<noteq> ''event_error'' \<longrightarrow> once_events s' j = once_events s j)
       \<and> set (dict_get (once_events s') ''event_error'') \<subseteq> set (dict_get (once_events s) ''event_error'')
       \<and> dispatched new = failure_reports E a hs
       \<and> scheduled x new = map (\<lambda>f. (f, a)) (filter (\<lambda>f. create_task E f a = None) hs)"
  using benign
proof (induction hs arbitrary: s)
  case Nil
  show ?case by simp
next
  case (Cons h hs)
  let ?ee = "''event_error''"
  have tail: "\<exists>s' new. schedule_all E (handle_event E (Suc n)) k x a hs s1 = Some (Returned, s')
       \<and> trace s' = trace s1 @ new
       \<and> events s' = events s1
       \<and> (\<forall>j. j \<noteq> ?ee \<longrightarrow> once_events s' j = once_events s1 j)
       \<and> set (dict_get (once_events s') ?ee) \<subseteq> set (dict_get (once_events s1) ?ee)
       \<and> dispatched new = failure_reports E a hs
       \<and> scheduled x new = map (\<lambda>f. (f, a)) (filter (\<lambda>f. create_task E f a = None) hs)"
    if ev: "events s1 = events s"
      and sub: "set (dict_get (once_events s1) ?ee) \<subseteq> set (dict_get (once_events s) ?ee)"
    for s1
  proof (rule Cons.IH)
    show "\<forall>h \<in> set hs. \<forall>e. create_task E h a = Some e \<longrightarrow>
       (\<exists>ea. convert E ?ee (Tagged e h) = Inr ea
          \<and> (\<forall>f \<in> set (dict_get (events s1) ?ee @ dict_get (once_events s1) ?ee).
                create_task E f ea = None))"
    proof (intro ballI allI impI)
      fix g e assume g: "g \<in> set hs" and fails: "create_task E g a = Some e"
      from g have "g \<in> set (h # hs)" by simp
      with Cons.prems fails obtain ea where
        conv: "convert E ?ee (Tagged e g) = Inr ea"
        and ok: "\<forall>f \<in> set (dict_get (events s) ?ee @ dict_get (once_events s) ?ee).
                   create_task E f ea = None"
        by blast
      from ok ev sub
      have "\<forall>f \<in> set (dict_get (events s1) ?ee @ dict_get (once_events s1) ?ee).
              create_task E f ea = None"
        by auto
      with conv show "\<exists>ea. convert E ?ee (Tagged e g) = Inr ea
          \<and> (\<forall>f \<in> set (dict_get (events s1) ?ee @ dict_get (once_events s1) ?ee).
                create_task E f ea = None)"
        by blast
    qed
  qed
  show ?case
  proof (cases "create_task E h a")
    case None
    let ?s1 = "emit [Task k x h a] s"
    from tail [of ?s1] obtain s' new where
      run: "schedule_all E (handle_event E (Suc n)) k x a hs ?s1 = Some (Returned, s')"
      and tr: "trace s' = trace ?s1 @ new"
      and ev: "events s' = events ?s1"
      and oth: "\<forall>j. j \<noteq> ?ee \<longrightarrow> once_events s' j = once_events ?s1 j"
      and sub: "set (dict_get (once_events s') ?ee) \<subseteq> set (dict_get (once_events ?s1) ?ee)"
      and dis: "dispatched new = failure_reports E a hs"
      and sch: "scheduled x new = map (\<lambda>f. (f, a)) (filter (\<lambda>f. create_task E f a = None) hs)"
      by auto
    show ?thesis
    proof (intro exI conjI)
      show "schedule_all E (handle_event E (Suc n)) k x a (h # hs) s = Some (Returned, s')"
        using None run by simp
      show "trace s' = trace s @ (Task k x h a # new)" using tr by simp
      show "events s' = events s" using ev by simp
      show "\<forall>j. j \<noteq> ?ee \<longrightarrow> once_events s' j = once_events s j" using oth by simp
      show "set (dict_get (once_events s') ?ee) \<subseteq> set (dict_get (once_events s) ?ee)"
        using sub by simp
      show "dispatched (Task k x h a # new) = failure_reports E a (h # hs)"
        using None dis by simp
      show "scheduled x (Task k x h a # new)
              = map (\<lambda>f. (f, a)) (filter (\<lambda>f. create_task E f a = None) (h # hs))"
        using None sch by simp
    qed
  next
    case (Some e)
    let ?em = "Envelope (Tagged e h) ?ee"
    have "h \<in> set (h # hs)" by simp
    with Cons.prems Some obtain ea where
      conv: "convert E ?ee (Tagged e h) = Inr ea"
      and ok: "\<forall>f \<in> set (dict_get (events s) ?ee @ dict_get (once_events s) ?ee).
                 create_task E f ea = None"
      by blast
    let ?s1 = "emit (fanout ?em ?ee ea s) (s\<lparr>once_events := (once_events s)(?ee := None)\<rparr>)"
    have inner: "handle_event E (Suc n) s ?em = Some (Returned, ?s1)"
      using conv ok by (intro dispatch_ok) (simp_all add: lower_event_error)
    have "events ?s1 = events s"
      and "set (dict_get (once_events ?s1) ?ee) \<subseteq> set (dict_get (once_events s) ?ee)"
      by (simp_all add: dict_get_def)
    from tail [OF this] obtain s' new where
      run: "schedule_all E (handle_event E (Suc n)) k x a hs ?s1 = Some (Returned, s')"
      and tr: "trace s' = trace ?s1 @ new"
      and ev: "events s' = events ?s1"
      and oth: "\<forall>j. j \<noteq> ?ee \<longrightarrow> once_events s' j = once_events ?s1 j"
      and sub: "set (dict_get (once_events s') ?ee) \<subseteq> set (dict_get (once_events ?s1) ?ee)"
      and dis: "dispatched new = failure_reports E a hs"
      and sch: "scheduled x new = map (\<lambda>f. (f, a)) (filter (\<lambda>f. create_task E f a = None) hs)"
      by auto
    show ?thesis
    proof (intro exI conjI)
      show "schedule_all E (handle_event E (Suc n)) k x a (h # hs) s = Some (Returned, s')"
        using Some inner run by (simp del: handle_event.simps)
      show "trace s' = trace s @ (fanout ?em ?ee ea s @ new)" using tr by simp
      show "events s' = events s" using ev by simp
      show "\<forall>j. j \<noteq> ?ee \<longrightarrow> once_events s' j = once_events s j" using oth by simp
      show "set (dict_get (once_events s') ?ee) \<subseteq> set (dict_get (once_events s) ?ee)"
      proof -
        have "dict_get (once_events ?s1) ?ee = []" by (simp add: dict_get_def)
        with sub have "set (dict_get (once_events s') ?ee) = {}" by simp
        then show ?thesis by simp
      qed
      show "dispatched (fanout ?em ?ee ea s @ new) = failure_reports E a (h # hs)"
        using Some dis by simp
      show "scheduled x (fanout ?em ?ee ea s @ new)
              = map (\<lambda>f. (f, a)) (filter (\<lambda>f. create_task E f a = None) (h # hs))"
        using Some sch ne by simp
    qed
  qed
qed

text \<open>
  C3 (as amended). Take a dispatch of an event \<open>x\<close> other than \<^verbatim>\<open>event_error\<close> whose
  payload converts, with \<open>hs\<close> the listeners of \<open>x\<close> (persistent, then one-shot), and
  suppose that for every listener of \<open>x\<close> that raises when it is scheduled the dispatch of
  \<^verbatim>\<open>event_error\<close> goes through: the error payload converts and every listener of
  \<^verbatim>\<open>event_error\<close> can be scheduled with the result. Then, with room for two nested calls,
  the dispatch returns; besides the envelope itself exactly one \<^verbatim>\<open>event_error\<close> envelope
  was dispatched for each listener that raised, in order, its payload the exception tagged
  with that listener; and every listener of \<open>x\<close> that can be scheduled was scheduled, in
  order, with the converted arguments, those after a failing listener included.
\<close>

theorem handle_event_failure_isolated:
  assumes x: "lower (msg_t msg) = x" and ne: "x \<noteq> ''event_error''"
    and conv: "convert E x (msg_d msg) = Inr a"
    and hs: "hs = dict_get (events st) x @ dict_get (once_events st) x"
    and benign: "\<forall>h \<in> set hs. \<forall>e. create_task E h a = Some e \<longrightarrow>
       (\<exists>ea. convert E ''event_error'' (Tagged e h) = Inr ea
          \<and> (\<forall>f \<in> set (dict_get (events st) ''event_error''
                         @ dict_get (once_events st) ''event_error''). create_task E f ea = None))"
  shows "\<exists>st' new. handle_event E (Suc (Suc n)) st msg = Some (Returned, st')
       \<and> trace st' = trace st @ new
       \<and> dispatched new = msg # failure_reports E a hs
       \<and> scheduled x new = map (\<lambda>f. (f, a)) (filter (\<lambda>f. create_task E f a = None) hs)"
proof -
  let ?ee = "''event_error''"
  let ?ps = "dict_get (events st) x" and ?os = "dict_get (once_events st) x"
  let ?st0 = "emit [Dispatch msg] st"
  have b1: "\<forall>h \<in> set ?ps. \<forall>e. create_task E h a = Some e \<longrightarrow>
       (\<exists>ea. convert E ?ee (Tagged e h) = Inr ea
          \<and> (\<forall>f \<in> set (dict_get (events ?st0) ?ee @ dict_get (once_events ?st0) ?ee).
                create_task E f ea = None))"
    using benign hs by simp
  from schedule_all_isolated [OF ne b1, of n Persistent] obtain s1 new1 where
    run1: "schedule_all E (handle_event E (Suc n)) Persistent x a ?ps ?st0 = Some (Returned, s1)"
    and tr1: "trace s1 = trace ?st0 @ new1"
    and ev1: "events s1 = events ?st0"
    and oth1: "\<forall>j. j \<noteq> ?ee \<longrightarrow> once_events s1 j = once_events ?st0 j"
    and sub1: "set (dict_get (once_events s1) ?ee) \<subseteq> set (dict_get (once_events ?st0) ?ee)"
    and dis1: "dispatched new1 = failure_reports E a ?ps"
    and sch1: "scheduled x new1 = map (\<lambda>f. (f, a)) (filter (\<lambda>f. create_task E f a = None) ?ps)"
    by blast
  have os: "dict_get (once_events s1) x = ?os"
    using oth1 ne by (simp add: dict_get_def)
  let ?s2 = "emit [Drain x ?os] (s1\<lparr>once_events := (once_events s1)(x := None)\<rparr>)"
  have sub2: "set (dict_get (once_events ?s2) ?ee) \<subseteq> set (dict_get (once_events st) ?ee)"
    using sub1 ne by (simp add: dict_get_def)
  have b2: "\<forall>h \<in> set ?os. \<forall>e. create_task E h a = Some e \<longrightarrow>
       (\<exists>ea. convert E ?ee (Tagged e h) = Inr ea
          \<and> (\<forall>f \<in> set (dict_get (events ?s2) ?ee @ dict_get (once_events ?s2) ?ee).
                create_task E f ea = None))"
  proof (intro ballI allI impI)
    fix g e assume g: "g \<in> set ?os" and fails: "create_task E g a = Some e"
    from hs g have "g \<in> set hs" by simp
    with benign fails obtain ea where
      c: "convert E ?ee (Tagged e g) = Inr ea"
      and ok: "\<forall>f \<in> set (dict_get (events st) ?ee @ dict_get (once_events st) ?ee).
                 create_task E f ea = None"
      by blast
    from ok ev1 sub2
    have "\<forall>f \<in> set (dict_get (events ?s2) ?ee @ dict_get (once_events ?s2) ?ee).
            create_task E f ea = None"
      by auto
    with c show "\<exists>ea. convert E ?ee (Tagged e g) = Inr ea
          \<and> (\<forall>f \<in> set (dict_get (events ?s2) ?ee @ dict_get (once_events ?s2) ?ee).
                create_task E f ea = None)"
      by blast
  qed
  from schedule_all_isolated [OF ne b2, of n OneShot] obtain s3 new2 where
    run2: "schedule_all E (handle_event E (Suc n)) OneShot x a ?os ?s2 = Some (Returned, s3)"
    and tr2: "trace s3 = trace ?s2 @ new2"
    and dis2: "dispatched new2 = failure_reports E a ?os"
    and sch2: "scheduled x new2 = map (\<lambda>f. (f, a)) (filter (\<lambda>f. create_task E f a = None) ?os)"
    by blast
  have run: "handle_event E (Suc (Suc n)) st msg = Some (Returned, s3)"
    using x conv run1 run2 os
    by (subst handle_event.simps(2)) (simp add: Let_def del: handle_event.simps)
  show ?thesis
  proof (intro exI conjI)
    show "handle_event E (Suc (Suc n)) st msg = Some (Returned, s3)" by (rule run)
    show "trace s3 = trace st @ ([Dispatch msg] @ new1 @ [Drain x ?os] @ new2)"
      using tr1 tr2 by simp
    show "dispatched ([Dispatch msg] @ new1 @ [Drain x ?os] @ new2) = msg # failure_reports E a hs"
      using dis1 dis2 hs by simp
    show "scheduled x ([Dispatch msg] @ new1 @ [Drain x ?os] @ new2)
            = map (\<lambda>f. (f, a)) (filter (\<lambda>f. create_task E f a = None) hs)"
      using sch1 sch2 hs by simp
  qed
qed

lemma client_mixed_tables:
  "events client_mixed = [''message_create'' \<mapsto> [handle_commands_func],
                          ''event_error'' \<mapsto> [handle_event_error_func],
                          ''ready'' \<mapsto> [on_ready, audit_log]]"
  "once_events client_mixed = [''ready'' \<mapsto> [greet, audit_log]]"
  "trace client_mixed = []"
  by (simp_all add: client_mixed_def client0_def init_def add_listener_def event_or_name_def
      on_ready_def greet_def audit_log_def Let_def)

theorem handle_event_failure_isolated_witness:
  "\<exists>st' new. handle_event env4 (Suc (Suc 0)) client_mixed ready_msg = Some (Returned, st')
     \<and> trace st' = trace client_mixed @ new
     \<and> dispatched new = [ready_msg, Envelope (Tagged TypeError on_ready) ''event_error'',
                          Envelope (Tagged TypeError greet) ''event_error'']
     \<and> scheduled ''ready'' new = [(audit_log, [Raw ''{}'']), (audit_log, [Raw ''{}''])]"
proof -
  have "\<exists>st' new. handle_event env4 (Suc (Suc 0)) client_mixed ready_msg = Some (Returned, st')
     \<and> trace st' = trace client_mixed @ new
     \<and> dispatched new
         = ready_msg # failure_reports env4 [Raw ''{}''] [on_ready, audit_log, greet, audit_log]
     \<and> scheduled ''ready'' new
         = map (\<lambda>f. (f, [Raw ''{}'']))
             (filter (\<lambda>f. create_task env4 f [Raw ''{}''] = None)
                [on_ready, audit_log, greet, audit_log])"
    by (rule handle_event_failure_isolated)
      (auto simp: ready_msg_def lower_READY env4_def client_mixed_tables dict_get_def
        on_ready_def greet_def audit_log_def handle_event_error_func_def)
  then show ?thesis
    by (simp add: env4_def on_ready_def greet_def audit_log_def)
qed

text \<open>
  The claim C3 as stated fails when the dispatch of \<^verbatim>\<open>event_error\<close> itself raises:
  \<open>greet\<close> cannot be scheduled, the converter rejects the error payload, the
  exception leaves the loop and \<open>audit_log\<close>, registered after \<open>greet\<close>, is never
  scheduled.
\<close>

theorem later_listener_lost_counterexample:
  "dict_get (events client_two) ''ready'' = [greet, audit_log]
   \<and> create_task env1 greet [Raw ''{}''] = Some TypeError
   \<and> create_task env1 audit_log [Raw ''{}''] = None
   \<and> handle_event env1 (Suc (Suc 0)) client_two ready_msg
       = Some (Raised (OtherError ''ConversionError''),
               emit [Dispatch ready_msg, Dispatch (Envelope (Tagged TypeError greet) ''event_error'')]
                 client_two)
   \<and> scheduled ''ready''
        [Dispatch ready_msg, Dispatch (Envelope (Tagged TypeError greet) ''event_error'')] = []"
  by (simp add: Let_def ready_msg_def lower_READY lower_event_error env1_def dict_get_def
      client_two_tables emit_emit greet_def audit_log_def)

text \<open>
  C6 (as amended). Only the name in the envelope is lower-cased; a registration keeps
  the name as given. For a name \<open>N\<close> without upper-case letters, an envelope whose
  type equals \<open>N\<close> up to letter case is dispatched to the listeners registered under
  \<open>N\<close>: when the payload converts and every listener can be scheduled, the persistent
  ones and then the one-shot ones are scheduled with the converted arguments.
\<close>

theorem dispatch_lowercases_only_envelope:
  assumes "lower N = N" and "lower (msg_t msg) = lower N"
    and "convert E N (msg_d msg) = Inr a"
    and "\<forall>f \<in> set (dict_get (events st) N @ dict_get (once_events st) N). create_task E f a = None"
  shows "handle_event E (Suc n) st msg =
     Some (Returned,
       emit ([Dispatch msg] @ map (\<lambda>f. Task Persistent N f a) (dict_get (events st) N)
               @ [Drain N (dict_get (once_events st) N)]
               @ map (\<lambda>f. Task OneShot N f a) (dict_get (once_events st) N))
         (st\<lparr>once_events := (once_events st)(N := None)\<rparr>))"
proof -
  from assms(1,2) have "lower (msg_t msg) = N" by simp
  from dispatch_ok [OF this assms(3,4), of n] show ?thesis
    by (simp add: fanout_def)
qed

theorem dispatch_lowercases_only_envelope_witness:
  "handle_event env0 (Suc 0) client_two ready_msg =
     Some (Returned,
       emit ([Dispatch ready_msg]
               @ map (\<lambda>f. Task Persistent ''ready'' f [Raw ''{}'']) (dict_get (events client_two) ''ready'')
               @ [Drain ''ready'' (dict_get (once_events client_two) ''ready'')]
               @ map (\<lambda>f. Task OneShot ''ready'' f [Raw ''{}'']) (dict_get (once_events client_two) ''ready''))
         (client_two\<lparr>once_events := (once_events client_two)(''ready'' := None)\<rparr>))"
  by (rule dispatch_lowercases_only_envelope)
    (simp_all add: ready_msg_def lower_READY lower_idem [of "''READY''", unfolded lower_READY]
      env0_def)

text \<open>
  The claim C6 as stated fails for a listener registered under a name with upper-case
  letters: the envelope \<^verbatim>\<open>READY\<close> is looked up as \<^verbatim>\<open>ready\<close>, and the listener
  registered as \<^verbatim>\<open>READY\<close> is not scheduled.
\<close>

theorem uppercase_registration_counterexample:
  "dict_get (events client_upper) ''READY'' = [on_ready]
   \<and> lower (msg_t ready_msg) = lower ''READY''
   \<and> convert env0 (lower ''READY'') (msg_d ready_msg) = Inr [Raw ''{}'']
   \<and> create_task env0 on_ready [Raw ''{}''] = None
   \<and> handle_event env0 (Suc 0) client_upper ready_msg
       = Some (Returned, emit [Dispatch ready_msg, Drain ''ready'' []] client_upper)"
  by (simp add: Let_def ready_msg_def lower_READY env0_def dict_get_def client_upper_tables
      emit_emit emit_once_events)

lemma uppercase_key_never_looked_up: "lower N \<noteq> N \<Longrightarrow> lower s \<noteq> N"
  using lower_idem [of s] by auto

section \<open>Properties of the command registry and of command processing\<close>

lemma find_command_dropWhile:
  "find_command cs nm =
     (case dropWhile (\<lambda>kc. \<not> accepts kc nm) cs of [] \<Rightarrow> None | (k, c) # _ \<Rightarrow> Some c)"
  by (induction cs nm rule: find_command.induct) (simp_all add: accepts_def)

text \<open>
  C5 (as amended). \<^verbatim>\<open>get_command_named\<close> makes one pass over the registry in
  registration order and returns the first command that accepts the name: a
  pattern-style command whose match function accepts it under the command's flags, or a
  plain command whose key equals it. When no entry accepts the name the result is
  \<open>None\<close>; nothing is raised. There is no exact-match lookup ahead of the pass.
\<close>

theorem get_command_named_first_accepting:
  "get_command_named st nm =
     (case dropWhile (\<lambda>kc. \<not> accepts kc nm) (commands st) of
        [] \<Rightarrow> None
      | (k, c) # _ \<Rightarrow> Some c)"
  by (simp add: get_command_named_def find_command_dropWhile)

lemma get_command_named_first:
  assumes "commands st = pre @ (k, c) # post" and "accepts (k, c) nm"
    and "\<forall>kc \<in> set pre. \<not> accepts kc nm"
  shows "get_command_named st nm = Some c"
  using assms by (simp add: get_command_named_def find_command_dropWhile dropWhile_append3)

lemma get_command_named_none:
  assumes "\<forall>kc \<in> set (commands st). \<not> accepts kc nm"
  shows "get_command_named st nm = None"
proof -
  from assms have none: "dropWhile (\<lambda>kc. \<not> accepts kc nm) (commands st) = []"
    by (simp add: dropWhile_eq_Nil_conv)
  show ?thesis
    unfolding get_command_named_def find_command_dropWhile none by simp
qed

lemma client_cmds_commands:
  "commands client_cmds = [(''echo-'', echo_pattern), (''echo-foo'', echo_foo)]"
  by (simp add: client_cmds_def client0_def init_def add_command_def echo_pattern_def echo_foo_def)

text \<open>
  The claim C5 as stated fails when a pattern-style command registered earlier accepts
  the name: the plain command whose key is exactly \<^verbatim>\<open>echo-foo\<close> is not returned.
\<close>

theorem earlier_pattern_wins_counterexample:
  "commands client_cmds = [(''echo-'', echo_pattern), (''echo-foo'', echo_foo)]
   \<and> \<not> is_regex_command echo_foo
   \<and> get_command_named client_cmds ''echo-foo'' = Some echo_pattern
   \<and> echo_pattern \<noteq> echo_foo"
  by (simp add: client_cmds_commands get_command_named_def)
     (simp add: echo_pattern_def echo_foo_def)

text \<open>
  C9. When the registry already maps the name of \<open>c\<close> to a command \<open>c0\<close>,
  \<^verbatim>\<open>add_command(c)\<close> raises \<^verbatim>\<open>ValueError\<close>, the client is unchanged, and the
  registry still maps the name to \<open>c0\<close>.
\<close>

theorem add_command_duplicate_rejected:
  assumes "map_of (commands st) (name c) = Some c0"
  shows "add_command c st = (Raised ValueError, st)
       \<and> map_of (commands (snd (add_command c st))) (name c) = Some c0"
proof -
  from assms have "name c \<in> set (map fst (commands st))"
    by (metis map_of_eq_None_iff option.distinct(1) set_map)
  with assms show ?thesis by (simp add: add_command_def)
qed

theorem add_command_duplicate_rejected_witness:
  "add_command echo_foo_again client_cmds = (Raised ValueError, client_cmds)
   \<and> map_of (commands (snd (add_command echo_foo_again client_cmds))) (name echo_foo_again)
       = Some echo_foo"
  by (rule add_command_duplicate_rejected)
    (simp add: client_cmds_commands echo_foo_again_def echo_pattern_def echo_foo_def)

text \<open>
  C8. For a message whose author is a bot, \<^verbatim>\<open>process_commands\<close> (and the default
  listener \<^verbatim>\<open>handle_commands\<close>) returns at once and leaves the client as it was: the
  parser is not called and no command is executed, whatever the parser would have found,
  whatever the commands and whatever \<^verbatim>\<open>respond_self\<close> and the prefix are.
\<close>

theorem bot_author_never_executes:
  assumes "author_bot m"
  shows "process_commands E m st = (Returned, st) \<and> handle_commands E m st = (Returned, st)"
  using assms by (simp add: process_commands_def handle_commands_def)

theorem bot_author_never_executes_witness:
  "process_commands env3 bot_msg client_cmds = (Returned, client_cmds)
   \<and> handle_commands env3 bot_msg client_cmds = (Returned, client_cmds)"
  by (rule bot_author_never_executes) (simp add: bot_msg_def)

lemma human_author_executes:
  "process_commands env3 human_msg client_cmds
     = (Returned, emit [Parse ''!echo-foo'', Execute ''echo-'' []] client_cmds)"
  by (simp add: process_commands_def env3_def human_msg_def client_cmds_commands)
     (simp add: echo_pattern_def)

section \<open>Properties of the connection lifecycle\<close>

lemma client_logged_in_fields:
  "closed client_logged_in = False"
  "token client_logged_in = Some ''tok''"
  "intents client_logged_in = Intents 0"
  "ws client_logged_in = None"
  "trace client_logged_in = [LockAcquire, HttpLogin ''tok'', LockRelease]"
  by (simp_all add: client_logged_in_def login_def client0_def init_def Let_def)

lemma client_bad_intents_fields:
  "closed client_bad_intents = False"
  "token client_bad_intents = Some ''tok''"
  "intents client_bad_intents = NotIntents ''int''"
  "ws client_bad_intents = None"
  "trace client_bad_intents = [LockAcquire, HttpLogin ''tok'', LockRelease]"
  by (simp_all add: client_bad_intents_def login_def init_def Let_def)

lemma connect_gateway_failure:
  assumes "\<not> closed st" and "token st = Some tk"
  shows "connect st ((Exc e, c) # rs) =
           (Raised e, emit [NewSocket tk, LockAcquire, HttpGateway, LockRelease] (st\<lparr>closed := c\<rparr>), rs)"
  using assms by (subst connect.simps) (simp add: Let_def emit_def)

lemma connect_start_failure:
  assumes "\<not> closed st" and "token st = Some tk" and "is_intents (intents st)"
  shows "connect st ((Ret url, c1) # (Exc e, c2) # rs) =
           (Raised e,
            emit [NewSocket tk, LockAcquire, HttpGateway, SocketStart url, LockRelease]
              (st\<lparr>closed := c1 \<or> c2\<rparr>), rs)"
  using assms by (subst connect.simps) (simp add: Let_def emit_def)

text \<open>
  C1 (as amended). In \<^verbatim>\<open>connect()\<close> on a client that is not closed, an exception of
  \<^verbatim>\<open>gateway()\<close> or of the bounded \<^verbatim>\<open>socket.start(g_url)\<close> (the timeout included) is
  not caught: \<^verbatim>\<open>connect()\<close> ends with that exception after one socket was constructed,
  whatever \<open>c\<close>, \<open>c1\<close>, \<open>c2\<close> say about the flag, and the answers \<open>rs\<close> that a
  further attempt would consume are left untouched.
\<close>

theorem connect_failure_propagates:
  assumes "\<not> closed st" and "token st = Some tk" and "is_intents (intents st)"
  shows "connect st ((Exc e, c) # rs) =
           (Raised e, emit [NewSocket tk, LockAcquire, HttpGateway, LockRelease] (st\<lparr>closed := c\<rparr>), rs)
       \<and> connect st ((Ret url, c1) # (Exc e, c2) # rs) =
           (Raised e,
            emit [NewSocket tk, LockAcquire, HttpGateway, SocketStart url, LockRelease]
              (st\<lparr>closed := c1 \<or> c2\<rparr>), rs)"
  using connect_gateway_failure [OF assms(1,2)] connect_start_failure [OF assms] by simp

theorem connect_failure_propagates_witness:
  "connect client_logged_in ((Exc (OtherError ''ConnectionError''), False) # [(Ret ''wss://gw'', False)]) =
     (Raised (OtherError ''ConnectionError''),
      emit [NewSocket ''tok'', LockAcquire, HttpGateway, LockRelease]
        (client_logged_in\<lparr>closed := False\<rparr>), [(Ret ''wss://gw'', False)])
   \<and> connect client_logged_in
        ((Ret ''wss://gw'', False) # (Exc (OtherError ''ConnectionError''), False) # [(Ret ''wss://gw'', False)]) =
     (Raised (OtherError ''ConnectionError''),
      emit [NewSocket ''tok'', LockAcquire, HttpGateway, SocketStart ''wss://gw'', LockRelease]
        (client_logged_in\<lparr>closed := False \<or> False\<rparr>), [(Ret ''wss://gw'', False)])"
  by (rule connect_failure_propagates) (simp_all add: client_logged_in_fields)

text \<open>
  The claim C1 as stated fails: the session start times out while the client is not
  closed, \<^verbatim>\<open>connect()\<close> ends with \<^verbatim>\<open>TimeoutError\<close>, only one socket was constructed and
  the answers for a second attempt are never asked for.
\<close>

theorem connect_timeout_not_retried_counterexample:
  "\<not> closed client_logged_in
   \<and> fst (connect client_logged_in
        [(Ret ''wss://gw'', False), (Exc TimeoutError, False), (Ret ''wss://gw'', False), (Ret ''session'', False)])
       = Raised TimeoutError
   \<and> \<not> closed (fst (snd (connect client_logged_in
        [(Ret ''wss://gw'', False), (Exc TimeoutError, False), (Ret ''wss://gw'', False), (Ret ''session'', False)])))
   \<and> trace (fst (snd (connect client_logged_in
        [(Ret ''wss://gw'', False), (Exc TimeoutError, False), (Ret ''wss://gw'', False), (Ret ''session'', False)])))
       = trace client_logged_in
           @ [NewSocket ''tok'', LockAcquire, HttpGateway, SocketStart ''wss://gw'', LockRelease]
   \<and> snd (snd (connect client_logged_in
        [(Ret ''wss://gw'', False), (Exc TimeoutError, False), (Ret ''wss://gw'', False), (Ret ''session'', False)]))
       = [(Ret ''wss://gw'', False), (Ret ''session'', False)]"
  by (simp add: connect_start_failure client_logged_in_fields)

lemma connect_type_error:
  assumes "\<not> closed st" and "token st = Some tk" and "\<not> is_intents (intents st)"
  shows "connect st ((Ret url, c) # rs) =
           (Raised TypeError,
            emit [NewSocket tk, LockAcquire, HttpGateway, LockRelease] (st\<lparr>closed := c\<rparr>), rs)"
  using assms by (subst connect.simps) (simp add: Let_def emit_def)

text \<open>
  C2 (as amended). On a client that is not closed and whose \<^verbatim>\<open>intents\<close> is not an
  \<^verbatim>\<open>Intents\<close> value, \<^verbatim>\<open>connect()\<close> raises \<^verbatim>\<open>TypeError\<close> in its first round, after the
  REST call \<^verbatim>\<open>gateway()\<close> has returned and before the socket is started; when
  \<^verbatim>\<open>gateway()\<close> raises, that exception comes out instead and the type is never checked.
\<close>

theorem connect_type_check_after_gateway:
  assumes "\<not> closed st" and "token st = Some tk" and "\<not> is_intents (intents st)"
  shows "connect st ((Ret url, c) # rs) =
           (Raised TypeError,
            emit [NewSocket tk, LockAcquire, HttpGateway, LockRelease] (st\<lparr>closed := c\<rparr>), rs)
       \<and> connect st ((Exc e, c) # rs) =
           (Raised e,
            emit [NewSocket tk, LockAcquire, HttpGateway, LockRelease] (st\<lparr>closed := c\<rparr>), rs)"
  using connect_type_error [OF assms] connect_gateway_failure [OF assms(1,2)] by simp

theorem connect_type_check_after_gateway_witness:
  "connect client_bad_intents ((Ret ''wss://gw'', False) # []) =
     (Raised TypeError,
      emit [NewSocket ''tok'', LockAcquire, HttpGateway, LockRelease]
        (client_bad_intents\<lparr>closed := False\<rparr>), [])
   \<and> connect client_bad_intents ((Exc (OtherError ''ConnectionError''), False) # []) =
     (Raised (OtherError ''ConnectionError''),
      emit [NewSocket ''tok'', LockAcquire, HttpGateway, LockRelease]
        (client_bad_intents\<lparr>closed := False\<rparr>), [])"
  by (rule connect_type_check_after_gateway) (simp_all add: client_bad_intents_fields)

text \<open>
  The claim C2 as stated fails: with an \<^verbatim>\<open>int\<close> for the intents the REST call
  \<^verbatim>\<open>gateway()\<close> is in the trace of the run that ends with \<^verbatim>\<open>TypeError\<close>, and when that
  call fails the run ends with its exception, not with \<^verbatim>\<open>TypeError\<close>.
\<close>

theorem gateway_called_before_type_check_counterexample:
  "\<not> is_intents (intents client_bad_intents)
   \<and> fst (connect client_bad_intents [(Ret ''wss://gw'', False)]) = Raised TypeError
   \<and> trace (fst (snd (connect client_bad_intents [(Ret ''wss://gw'', False)])))
       = trace client_bad_intents @ [NewSocket ''tok'', LockAcquire, HttpGateway, LockRelease]
   \<and> fst (connect client_bad_intents [(Exc (OtherError ''ConnectionError''), False)])
       = Raised (OtherError ''ConnectionError'')"
  by (simp add: connect_type_error connect_gateway_failure client_bad_intents_fields)

lemma close_without_session:
  "ws st = None \<Longrightarrow> close st rs = (Raised AttributeError, st\<lparr>closed := True\<rparr>, rs)"
  by (simp add: close_def Let_def)

lemma alive_loop_login_failure:
  "login tk (st\<lparr>loop_set := True\<rparr>) rs = (Raised e, st1, rs1)
   \<Longrightarrow> alive_loop tk st rs = (Raised e, st1, rs1)"
  by (simp add: alive_loop_def)

lemma alive_loop_connect_failure:
  assumes "login tk (st\<lparr>loop_set := True\<rparr>) rs = (Returned, st1, rs1)"
    and "connect st1 rs1 = (Raised e, st2, rs2)"
    and "ws st2 = None"
  shows "close st2 rs2 = (Raised AttributeError, st2\<lparr>closed := True\<rparr>, rs2)
       \<and> alive_loop tk st rs = (Raised AttributeError, st2\<lparr>closed := True\<rparr>, rs2)"
  using assms by (simp add: alive_loop_def close_without_session)

text \<open>
  C10 (as amended). When \<^verbatim>\<open>login\<close> has returned and \<^verbatim>\<open>connect()\<close> raises while
  \<^verbatim>\<open>self.ws\<close> has never been assigned, the \<^verbatim>\<open>finally\<close> clause of \<^verbatim>\<open>alive_loop\<close>
  calls \<^verbatim>\<open>close()\<close>, which sets the flag and raises \<^verbatim>\<open>AttributeError\<close>; that exception
  replaces the one of \<^verbatim>\<open>connect()\<close>. When \<^verbatim>\<open>login\<close> raises, \<^verbatim>\<open>alive_loop\<close> ends
  with that exception as \<^verbatim>\<open>login\<close> left the client: \<^verbatim>\<open>close()\<close> is not called.
\<close>

theorem alive_loop_close_without_session:
  "(login tk (st\<lparr>loop_set := True\<rparr>) rs = (Returned, st1, rs1)
      \<and> connect st1 rs1 = (Raised e, st2, rs2) \<and> ws st2 = None
    \<longrightarrow> close st2 rs2 = (Raised AttributeError, st2\<lparr>closed := True\<rparr>, rs2)
        \<and> alive_loop tk st rs = (Raised AttributeError, st2\<lparr>closed := True\<rparr>, rs2))
   \<and> (login tk (st\<lparr>loop_set := True\<rparr>) rs = (Raised e, st1, rs1)
    \<longrightarrow> alive_loop tk st rs = (Raised e, st1, rs1))"
  using alive_loop_connect_failure [of tk st rs st1 rs1 e st2 rs2]
    alive_loop_login_failure [of tk st rs e st1 rs1]
  by blast

lemma login_client0:
  "login ''tok'' (client0\<lparr>loop_set := True\<rparr>) ((Ret ''me'', False) # rs)
     = (Returned, client_logged_in\<lparr>loop_set := True\<rparr>, rs)"
  by (simp add: client_logged_in_def login_def client0_def init_def Let_def emit_def)

lemma login_client0_failure:
  "login ''tok'' (client0\<lparr>loop_set := True\<rparr>) [(Exc (OtherError ''LoginFailure''), False)]
     = (Raised (OtherError ''LoginFailure''),
        emit [LockAcquire, HttpLogin ''tok'', LockRelease]
          (client0\<lparr>loop_set := True, token := Some ''tok''\<rparr>), [])"
  by (simp add: login_def client0_def init_def Let_def emit_def)

lemma connect_after_login_times_out:
  "connect (client_logged_in\<lparr>loop_set := True\<rparr>) [(Ret ''wss://gw'', False), (Exc TimeoutError, False)]
     = (Raised TimeoutError,
        emit [NewSocket ''tok'', LockAcquire, HttpGateway, SocketStart ''wss://gw'', LockRelease]
          (client_logged_in\<lparr>loop_set := True\<rparr>), [])"
proof -
  have same: "client_logged_in\<lparr>loop_set := True, closed := False\<rparr>
                = client_logged_in\<lparr>loop_set := True\<rparr>"
    by (simp add: client_logged_in_def login_def client0_def init_def Let_def emit_def)
  show ?thesis
    by (simp add: connect_start_failure client_logged_in_fields same)
qed

theorem alive_loop_close_without_session_witness:
  "alive_loop ''tok'' client0 [(Ret ''me'', False), (Ret ''wss://gw'', False), (Exc TimeoutError, False)]
     = (Raised AttributeError,
        (emit [NewSocket ''tok'', LockAcquire, HttpGateway, SocketStart ''wss://gw'', LockRelease]
            (client_logged_in\<lparr>loop_set := True\<rparr>))\<lparr>closed := True\<rparr>, [])
   \<and> alive_loop ''tok'' client0 [(Exc (OtherError ''LoginFailure''), False)]
     = (Raised (OtherError ''LoginFailure''),
        emit [LockAcquire, HttpLogin ''tok'', LockRelease]
          (client0\<lparr>loop_set := True, token := Some ''tok''\<rparr>), [])"
proof -
  have no_session:
    "ws (emit [NewSocket ''tok'', LockAcquire, HttpGateway, SocketStart ''wss://gw'', LockRelease]
           (client_logged_in\<lparr>loop_set := True\<rparr>)) = None"
    by (simp add: client_logged_in_fields)
  from alive_loop_close_without_session
    [of "''tok''" client0 "[(Ret ''me'', False), (Ret ''wss://gw'', False), (Exc TimeoutError, False)]"
      "client_logged_in\<lparr>loop_set := True\<rparr>" "[(Ret ''wss://gw'', False), (Exc TimeoutError, False)]"
      TimeoutError
      "emit [NewSocket ''tok'', LockAcquire, HttpGateway, SocketStart ''wss://gw'', LockRelease]
         (client_logged_in\<lparr>loop_set := True\<rparr>)" "[]"]
    login_client0 connect_after_login_times_out no_session
  have first: "alive_loop ''tok'' client0 [(Ret ''me'', False), (Ret ''wss://gw'', False), (Exc TimeoutError, False)]
     = (Raised AttributeError,
        (emit [NewSocket ''tok'', LockAcquire, HttpGateway, SocketStart ''wss://gw'', LockRelease]
            (client_logged_in\<lparr>loop_set := True\<rparr>))\<lparr>closed := True\<rparr>, [])"
    by blast
  from alive_loop_close_without_session
    [of "''tok''" client0 "[(Exc (OtherError ''LoginFailure''), False)]"
      "emit [LockAcquire, HttpLogin ''tok'', LockRelease] (client0\<lparr>loop_set := True, token := Some ''tok''\<rparr>)"
      "[]" "OtherError ''LoginFailure''"]
    login_client0_failure
  have second: "alive_loop ''tok'' client0 [(Exc (OtherError ''LoginFailure''), False)]
     = (Raised (OtherError ''LoginFailure''),
        emit [LockAcquire, HttpLogin ''tok'', LockRelease]
          (client0\<lparr>loop_set := True, token := Some ''tok''\<rparr>), [])"
    by blast
  from first second show ?thesis by simp
qed

lemma connect_session_then_closed:
  "connect client_logged_in [(Ret ''wss://gw'', False), (Ret ''session'', False), (Ret [], True)]
     = (Returned,
        emit [NewSocket ''tok'', LockAcquire, HttpGateway, SocketStart ''wss://gw'', LockRelease,
              ReceiveEvents ''session'']
          (client_logged_in\<lparr>ws := Some ''session'', closed := True\<rparr>), [])"
  by (simp add: connect.simps client_logged_in_fields Let_def emit_def)

text \<open>
  The claim C10 as stated fails for \<^verbatim>\<open>login\<close>: it is awaited before the \<^verbatim>\<open>try\<close>, so
  its exception leaves \<^verbatim>\<open>alive_loop\<close> unchanged, the flag is not set and nothing of
  \<^verbatim>\<open>close()\<close> is in the trace.
\<close>

theorem login_failure_skips_close_counterexample:
  "ws client0 = None
   \<and> fst (alive_loop ''tok'' client0 [(Exc (OtherError ''LoginFailure''), False)])
       = Raised (OtherError ''LoginFailure'')
   \<and> \<not> closed (fst (snd (alive_loop ''tok'' client0 [(Exc (OtherError ''LoginFailure''), False)])))
   \<and> trace (fst (snd (alive_loop ''tok'' client0 [(Exc (OtherError ''LoginFailure''), False)])))
       = [LockAcquire, HttpLogin ''tok'', LockRelease]"
  by (simp add: alive_loop_def login_def client0_def init_def Let_def)

end
